theory Spec2Isabelle
  imports Main
begin

section \<open>The g-map service of ember-cli-g-maps (addon/services/g-map.js)\<close>

subsection \<open>JavaScript values\<close>

text \<open>
  The values the service receives as names, handles, statuses and provider results.
  \<open>GMap r\<close> is the object with reference \<open>r\<close> for which
  \<^verbatim>\<open>instanceof google.maps.Map\<close> holds, \<open>JObj r\<close> any other object with reference
  \<open>r\<close>; the constructor records the class of the object, and an object has one
  reference. Two object values are equal exactly when they are the same reference, and
  numbers are the integral ones (no NaN), so \<^verbatim>\<open>===\<close> is HOL equality on this type.
\<close>

datatype jsval =
    Undefined
  | Null
  | JBool bool
  | JNum int
  | JStr string
  | GMap nat
  | JObj nat

text \<open>\<^verbatim>\<open>typeof v === 'string'\<close>\<close>

fun is_string :: "jsval \<Rightarrow> bool" where
  "is_string (JStr s) = True"
| "is_string v = False"

text \<open>\<^verbatim>\<open>v instanceof google.maps.Map\<close>\<close>

fun is_gmap :: "jsval \<Rightarrow> bool" where
  "is_gmap (GMap r) = True"
| "is_gmap v = False"

text \<open>JavaScript truthiness, as tested by \<^verbatim>\<open>if (v)\<close>, \<^verbatim>\<open>!v\<close>, \<^verbatim>\<open>a && b\<close>, \<^verbatim>\<open>a || b\<close>.\<close>

fun truthy :: "jsval \<Rightarrow> bool" where
  "truthy Undefined = False"
| "truthy Null = False"
| "truthy (JBool b) = b"
| "truthy (JNum n) = (n \<noteq> 0)"
| "truthy (JStr s) = (s \<noteq> [])"
| "truthy (GMap r) = True"
| "truthy (JObj r) = True"

text \<open>A default parameter \<^verbatim>\<open>(name = '')\<close>: only \<^verbatim>\<open>undefined\<close> is replaced.\<close>

definition default_name :: "jsval \<Rightarrow> jsval" where
  "default_name name = (if name = Undefined then JStr [] else name)"

subsection \<open>The registry \<^verbatim>\<open>maps\<close> (lines 12 to 119)\<close>

text \<open>
  A store item \<^verbatim>\<open>{ name, map }\<close>. The fields are JavaScript values: that a stored name is
  a string and a stored map a map instance is a property of \<^verbatim>\<open>add\<close>, proved below, not
  of the type. The accessor property \<^verbatim>\<open>onLoad\<close> is not modelled (no operation reads it).
\<close>

record mapItem =
  item_name :: jsval
  item_map :: jsval

text \<open>The three \<^verbatim>\<open>throw new Error(...)\<close> of \<^verbatim>\<open>add\<close>, by message.\<close>

datatype error =
    NameNotString
  | NotMapInstance
  | NameTaken

text \<open>\<^verbatim>\<open>select(name)\<close>: the first item with that name; \<open>None\<close> is \<^verbatim>\<open>undefined\<close>.\<close>

fun maps_select :: "jsval \<Rightarrow> mapItem list \<Rightarrow> mapItem option" where
  "maps_select name [] = None"
| "maps_select name (m # ms) =
     (if item_name m = name then Some m else maps_select name ms)"

text \<open>
  \<^verbatim>\<open>add(name, map)\<close> returns the thrown error or the new item, and the store afterwards
  (every \<^verbatim>\<open>throw\<close> comes before \<^verbatim>\<open>pushObject\<close>).
\<close>

definition maps_add :: "jsval \<Rightarrow> jsval \<Rightarrow> mapItem list \<Rightarrow> (error + mapItem) \<times> mapItem list" where
  "maps_add name mp ms =
     (if \<not> is_string name then (Inl NameNotString, ms)
      else if \<not> is_gmap mp then (Inl NotMapInstance, ms)
      else if maps_select name ms \<noteq> None then (Inl NameTaken, ms)
      else (let mapItem = \<lparr>item_name = name, item_map = mp\<rparr>
            in (Inr mapItem, ms @ [mapItem])))"

text \<open>\<^verbatim>\<open>remove(name)\<close>: \<^verbatim>\<open>removeAt(i)\<close> at the first match, then return.\<close>

fun maps_remove :: "jsval \<Rightarrow> mapItem list \<Rightarrow> bool \<times> mapItem list" where
  "maps_remove name [] = (False, [])"
| "maps_remove name (m # ms) =
     (if item_name m = name then (True, ms)
      else (case maps_remove name ms of (isSuccessful, ms') \<Rightarrow> (isSuccessful, m # ms')))"

text \<open>\<^verbatim>\<open>list()\<close>: \<^verbatim>\<open>maps.mapBy('name')\<close>.\<close>

definition maps_list :: "mapItem list \<Rightarrow> jsval list" where
  "maps_list ms = map item_name ms"

subsection \<open>The service state\<close>

text \<open>
  The store, the module variable \<^verbatim>\<open>mapIter\<close>, and the two effects the registry has on
  its collaborators: the texts passed to \<^verbatim>\<open>Ember.Logger.warn\<close> and the arguments of
  \<^verbatim>\<open>google.maps.event.trigger\<close>, in call order. \<^verbatim>\<open>mapIter\<close> is a natural number:
  it starts at 0, is only incremented or set to a length, and stays far below
  \<open>2 ^ 53\<close>, where a JavaScript number stops counting by one.
\<close>

record service =
  maps_store :: "mapItem list"
  mapIter :: nat
  warnings :: "string list"
  triggered :: "(jsval \<times> string) list"

definition init_service :: service where
  "init_service = \<lparr>maps_store = [], mapIter = 0, warnings = [], triggered = []\<rparr>"

text \<open>
  A template literal converts the interpolated value to a string. A string is itself.
  For any other value the conversion is the engine's \<^verbatim>\<open>ToString\<close>, a parameter of the
  model: it gives the text of \<^verbatim>\<open>undefined\<close>, \<^verbatim>\<open>null\<close>, a boolean or a number, and for an
  object it runs the object's own conversion methods; \<open>None\<close> is the TypeError it throws
  when the object has no conversion to a primitive (\<^verbatim>\<open>Object.create(null)\<close>).
\<close>

datatype js_error = TypeError

type_synonym to_string = "jsval \<Rightarrow> string option"

definition template_text :: "to_string \<Rightarrow> jsval \<Rightarrow> string option" where
  "template_text to_str v = (case v of JStr str \<Rightarrow> Some str | _ \<Rightarrow> to_str v)"

text \<open>
  \<^verbatim>\<open>refresh(name)\<close>. The warning is the fixed prefix followed by the text of
  \<^verbatim>\<open>name || '(no map name given)'\<close>. The template literal is evaluated before
  \<^verbatim>\<open>Logger.warn\<close> is called, so when the conversion throws nothing is logged and the
  error leaves \<^verbatim>\<open>refresh\<close>.
\<close>

definition maps_refresh :: "to_string \<Rightarrow> jsval \<Rightarrow> service \<Rightarrow> (js_error + bool) \<times> service" where
  "maps_refresh to_str name s =
     (case maps_select name (maps_store s) of
        None \<Rightarrow>
          (case template_text to_str
                  (if truthy name then name else JStr ''(no map name given)'') of
             None \<Rightarrow> (Inl TypeError, s)
           | Some shown \<Rightarrow>
               (Inr False,
                s\<lparr>warnings := warnings s @
                     [''Attempted to refresh undefined GMap instance: '' @ shown]\<rparr>))
      | Some mapStore \<Rightarrow>
          (Inr True, s\<lparr>triggered := triggered s @ [(item_map mapStore, ''resize'')]\<rparr>))"

subsection \<open>Built-in operations: \<^verbatim>\<open>indexOf\<close>, \<^verbatim>\<open>splice\<close>, \<^verbatim>\<open>toString(36)\<close>\<close>

text \<open>\<^verbatim>\<open>Array.prototype.indexOf\<close>: the first index, or -1.\<close>

fun indexOf :: "'a \<Rightarrow> 'a list \<Rightarrow> int" where
  "indexOf x [] = - 1"
| "indexOf x (y # ys) =
     (if y = x then 0 else (let i = indexOf x ys in if i < 0 then - 1 else i + 1))"

text \<open>
  \<^verbatim>\<open>xs.splice(start, 1)\<close>: a negative start counts from the end (so -1 is the last
  element), a start beyond the end removes nothing.
\<close>

definition splice1 :: "int \<Rightarrow> 'a list \<Rightarrow> 'a list" where
  "splice1 start xs =
     (let len = int (length xs);
          st = nat (if start < 0 then max (len + start) 0 else min start len)
      in take st xs @ drop (st + 1) xs)"

text \<open>\<^verbatim>\<open>Number.prototype.toString(36)\<close> on a counter: lower-case digits, no leading zero.\<close>

definition digits36 :: string where
  "digits36 = ''0123456789abcdefghijklmnopqrstuvwxyz''"

definition digit36 :: "nat \<Rightarrow> char" where
  "digit36 d = digits36 ! d"

function toString36 :: "nat \<Rightarrow> string" where
  "toString36 n =
     (if n < 36 then [digit36 n] else toString36 (n div 36) @ [digit36 (n mod 36)])"
  by pat_completeness auto
termination
  by (relation "measure (\<lambda>n. n)") auto

declare toString36.simps [simp del]

text \<open>
  The number a string of base-36 digits denotes (\<^verbatim>\<open>parseInt(ds, 36)\<close> on digits), to
  state what \<open>toString36\<close> computes.
\<close>

definition parseInt36 :: "string \<Rightarrow> nat" where
  "parseInt36 ds = foldl (\<lambda>a c. 36 * a + nat (indexOf c digits36)) 0 ds"

subsection \<open>The public methods (lines 216 to 303)\<close>

text \<open>
  \<^verbatim>\<open>addMap(name, map)\<close>: the counter moves first; a map instance as first argument is
  the handle, and the name is made from the counter.
\<close>

definition addMap :: "jsval \<Rightarrow> jsval \<Rightarrow> service \<Rightarrow> (error + mapItem) \<times> service" where
  "addMap name mp s =
     (let it = mapIter s + 1;
          (name', mp') = (if is_gmap name then (JStr (''map-'' @ toString36 it), name)
                          else (name, mp));
          (r, ms') = maps_add name' mp' (maps_store s)
      in (r, s\<lparr>maps_store := ms', mapIter := it\<rparr>))"

definition service_list :: "service \<Rightarrow> jsval list" where
  "service_list s = maps_list (maps_store s)"

definition refreshMap :: "to_string \<Rightarrow> jsval \<Rightarrow> service \<Rightarrow> (js_error + bool) \<times> service" where
  "refreshMap to_str name s = maps_refresh to_str (default_name name) s"

definition removeMap :: "jsval \<Rightarrow> service \<Rightarrow> bool \<times> service" where
  "removeMap name s =
     (case maps_remove (default_name name) (maps_store s) of
        (isSuccessful, ms') \<Rightarrow> (isSuccessful, s\<lparr>maps_store := ms'\<rparr>))"

text \<open>
  The loop of \<^verbatim>\<open>removeAll\<close>, \<^verbatim>\<open>for (var i = list.length - 1; i >= 0; i--)\<close>:
  \<open>removeAll_loop list k s\<close> runs the iterations \<open>i = k - 1, ..., 0\<close>. Every index read is
  below \<open>length list\<close> when the loop starts at \<open>k = length list\<close>.
\<close>

fun removeAll_loop :: "jsval list \<Rightarrow> nat \<Rightarrow> service \<Rightarrow> service" where
  "removeAll_loop list 0 s = s"
| "removeAll_loop list (Suc i) s = removeAll_loop list i (snd (removeMap (list ! i) s))"

definition removeAll :: "service \<Rightarrow> bool \<times> service" where
  "removeAll s =
     (let list = service_list s;
          s1 = removeAll_loop list (length list) s;
          list' = service_list s1
      in (length list' = 0, s1\<lparr>mapIter := length list'\<rparr>))"

definition selectMap :: "jsval \<Rightarrow> service \<Rightarrow> jsval" where
  "selectMap name s =
     (case maps_select (default_name name) (maps_store s) of
        None \<Rightarrow> Null
      | Some result \<Rightarrow> (if truthy (item_map result) then item_map result else Null))"

subsection \<open>Runs of the service\<close>

text \<open>
  A call that can change the state: the public methods, and the methods of the \<^verbatim>\<open>maps\<close>
  object, which is a public property of the service. \<^verbatim>\<open>select\<close>, \<^verbatim>\<open>selectMap\<close> and
  \<^verbatim>\<open>list\<close> change nothing. The store itself is local to the closure, so these calls
  are the only way to change it. A state is reachable when a finite run of calls leads
  to it from the initial state; a call that throws leaves the state it had reached.
  A refresh call carries the string conversion in force when it is made.
\<close>

datatype call =
    AddMap jsval jsval
  | MapsAdd jsval jsval
  | RemoveMap jsval
  | MapsRemove jsval
  | RefreshMap to_string jsval
  | MapsRefresh to_string jsval
  | RemoveAll

fun step :: "call \<Rightarrow> service \<Rightarrow> service" where
  "step (AddMap name mp) s = snd (addMap name mp s)"
| "step (MapsAdd name mp) s = s\<lparr>maps_store := snd (maps_add name mp (maps_store s))\<rparr>"
| "step (RemoveMap name) s = snd (removeMap name s)"
| "step (MapsRemove name) s = s\<lparr>maps_store := snd (maps_remove name (maps_store s))\<rparr>"
| "step (RefreshMap to_str name) s = snd (refreshMap to_str name s)"
| "step (MapsRefresh to_str name) s = snd (maps_refresh to_str name s)"
| "step RemoveAll s = snd (removeAll s)"

inductive reachable :: "service \<Rightarrow> bool" where
  reachable_init: "reachable init_service"
| reachable_step: "reachable s \<Longrightarrow> reachable (step c s)"

text \<open>
  A run of \<^verbatim>\<open>add\<close> and \<^verbatim>\<open>remove\<close> calls on the store in which every call succeeds:
  \<open>None\<close> as soon as an \<^verbatim>\<open>add\<close> throws or a \<^verbatim>\<open>remove\<close> returns false.
\<close>

datatype reg_op = Add jsval jsval | Remove jsval

fun run_ops :: "reg_op list \<Rightarrow> mapItem list \<Rightarrow> mapItem list option" where
  "run_ops [] ms = Some ms"
| "run_ops (Add name mp # ops) ms =
     (case maps_add name mp ms of
        (Inr mapItem, ms') \<Rightarrow> run_ops ops ms'
      | (Inl e, ms') \<Rightarrow> None)"
| "run_ops (Remove name # ops) ms =
     (case maps_remove name ms of
        (True, ms') \<Rightarrow> run_ops ops ms'
      | (False, ms') \<Rightarrow> None)"

text \<open>
  What the specification expects \<^verbatim>\<open>list()\<close> to return after such a run, written from
  its words and not from the code: a name is appended when it is added, and a removal
  deletes that name and keeps the others in their order.
\<close>

fun expected_names :: "reg_op list \<Rightarrow> jsval list \<Rightarrow> jsval list" where
  "expected_names [] names = names"
| "expected_names (Add name mp # ops) names = expected_names ops (names @ [name])"
| "expected_names (Remove name # ops) names =
     expected_names ops (filter (\<lambda>n. n \<noteq> name) names)"

subsection \<open>The geocode queue (lines 125 to 154)\<close>

text \<open>
  Property reads go through a store of objects: \<open>h r k\<close> is the value of property \<open>k\<close>
  of the object with reference \<open>r\<close>, \<^verbatim>\<open>undefined\<close> when it has none. Reading a property
  of \<^verbatim>\<open>null\<close> or \<^verbatim>\<open>undefined\<close> throws a TypeError (\<open>None\<close>); a string, number or
  boolean has no property \<^verbatim>\<open>error_message\<close>.
\<close>

type_synonym heap = "nat \<Rightarrow> string \<Rightarrow> jsval"

fun get_prop :: "heap \<Rightarrow> jsval \<Rightarrow> string \<Rightarrow> jsval option" where
  "get_prop h Undefined k = None"
| "get_prop h Null k = None"
| "get_prop h (GMap r) k = Some (h r k)"
| "get_prop h (JObj r) k = Some (h r k)"
| "get_prop h v k = Some Undefined"

text \<open>The object \<^verbatim>\<open>err\<close>; \<open>err_message = None\<close> when it has no property \<^verbatim>\<open>message\<close>.\<close>

record geo_error =
  err_status :: jsval
  err_message :: "jsval option"

text \<open>
  The state of a promise. \<^verbatim>\<open>resolve\<close> and \<^verbatim>\<open>reject\<close> settle a pending promise and do
  nothing to a settled one. (A provider result is data, not a thenable.) \<open>Thrown\<close> is a
  promise rejected with the exception its executor threw.
\<close>

datatype promise = Pending | Fulfilled jsval | Rejected geo_error | Thrown

definition settle :: "promise \<Rightarrow> promise \<Rightarrow> promise" where
  "settle outcome p = (if p = Pending then outcome else p)"

text \<open>
  The first statement of the provider callback: which of \<^verbatim>\<open>resolve(result)\<close> and
  \<^verbatim>\<open>reject(err)\<close> it calls, or \<open>None\<close> if it throws before calling either.
  \<^verbatim>\<open>result && result.error_message\<close> reads the property only of a truthy result.
\<close>

definition callback_outcome :: "heap \<Rightarrow> jsval \<Rightarrow> jsval \<Rightarrow> promise option" where
  "callback_outcome h result status =
     (if status = JStr ''OK'' \<or> status = JStr ''ZERO_RESULTS'' then Some (Fulfilled result)
      else
        (let err = \<lparr>err_status = status, err_message = None\<rparr>
         in if \<not> truthy result then Some (Rejected err)
            else (case get_prop h result ''error_message'' of
                    None \<Rightarrow> None
                  | Some m \<Rightarrow>
                      if truthy m then Some (Rejected (err\<lparr>err_message := Some m\<rparr>))
                      else Some (Rejected err))))"

text \<open>
  The callback of a request: the executor threw before it installed one, it is installed
  on \<^verbatim>\<open>options\<close> and has not run, or it has run.
\<close>

datatype callback_state = NoCallback | Installed | Called

text \<open>
  The queue \<^verbatim>\<open>_geocodeQueue\<close> holds promises, here by reference; \<open>promises\<close> is the state
  of every promise created so far, \<open>callbacks\<close> the state of its callback and \<open>next_ref\<close>
  the next fresh reference.
\<close>

record geo =
  queue :: "nat list"
  promises :: "nat \<Rightarrow> promise option"
  callbacks :: "nat \<Rightarrow> callback_state option"
  next_ref :: nat

definition init_geo :: geo where
  "init_geo = \<lparr>queue = [], promises = (\<lambda>r. None), callbacks = (\<lambda>r. None), next_ref = 0\<rparr>"

text \<open>
  The assignment \<^verbatim>\<open>options.callback = ...\<close> in strict code (the file is a module): it
  throws a TypeError when \<^verbatim>\<open>options\<close> is \<^verbatim>\<open>undefined\<close>, \<^verbatim>\<open>null\<close> or a primitive, and
  on an object that does not take the property (a frozen one); \<open>writable r\<close> says that
  the object with reference \<open>r\<close> takes it.
\<close>

definition can_assign :: "(nat \<Rightarrow> bool) \<Rightarrow> jsval \<Rightarrow> bool" where
  "can_assign writable options =
     (case options of JObj r \<Rightarrow> writable r | GMap r \<Rightarrow> writable r | _ \<Rightarrow> False)"

text \<open>
  \<^verbatim>\<open>geocode(options)\<close>. The executor of the new promise installs the callback and hands
  \<^verbatim>\<open>options\<close> to the provider. An exception in the executor, from the assignment or
  from the provider (\<open>provider_throws\<close>), rejects the promise and does not leave
  \<^verbatim>\<open>geocode\<close>: in every case the promise is pushed and returned. When the provider
  accepts the request it calls back later, not from inside \<^verbatim>\<open>GMaps.prototype.geocode\<close>.
\<close>

definition geocode :: "(nat \<Rightarrow> bool) \<Rightarrow> bool \<Rightarrow> jsval \<Rightarrow> geo \<Rightarrow> nat \<times> geo" where
  "geocode writable provider_throws options g =
     (let request = next_ref g;
          installed = can_assign writable options
      in (request,
          g\<lparr>queue := queue g @ [request],
            promises := (promises g)
              (request := Some (if installed \<and> \<not> provider_throws then Pending else Thrown)),
            callbacks := (callbacks g)
              (request := Some (if installed then Installed else NoCallback)),
            next_ref := request + 1\<rparr>))"

text \<open>
  The callback installed for \<open>request\<close>, called with \<open>(result, status)\<close>: settle, then
  \<^verbatim>\<open>queue.splice(queue.indexOf(request), 1)\<close>. \<open>None\<close> when it throws.
\<close>

definition callback :: "heap \<Rightarrow> nat \<Rightarrow> jsval \<Rightarrow> jsval \<Rightarrow> geo \<Rightarrow> geo option" where
  "callback h request result status g =
     (case callback_outcome h result status of
        None \<Rightarrow> None
      | Some outcome \<Rightarrow>
          Some (g\<lparr>promises := (promises g)(request := map_option (settle outcome) (promises g request)),
                  callbacks := (callbacks g)(request := Some Called),
                  queue := splice1 (indexOf request (queue g)) (queue g)\<rparr>))"

text \<open>
  Runs of the queue. The provider calls a callback only when one is installed, and
  calls it once, after \<^verbatim>\<open>geocode\<close> has returned the request.
\<close>

inductive geo_reachable :: "geo \<Rightarrow> bool" where
  geo_init: "geo_reachable init_geo"
| geo_submit:
    "geo_reachable g \<Longrightarrow> geo_reachable (snd (geocode writable provider_throws options g))"
| geo_callback:
    "geo_reachable g \<Longrightarrow> callbacks g request = Some Installed \<Longrightarrow>
     callback h request result status g = Some g' \<Longrightarrow> geo_reachable g'"

subsection \<open>The invariant of the store\<close>

text \<open>
  Every stored name is a string, every stored map is a map instance, and no name is
  stored twice. It is established by the checks of \<^verbatim>\<open>add\<close> and kept by every call.
\<close>

definition wf_store :: "mapItem list \<Rightarrow> bool" where
  "wf_store ms = ((\<forall>m \<in> set ms. is_string (item_name m) \<and> is_gmap (item_map m)) \<and> distinct (maps_list ms))"

text \<open>
  The invariant of the queue: no request is queued twice, the queued requests are
  exactly the requests made whose callback has not run, a pending promise has its
  callback installed, and no request exists beyond the next fresh reference.
\<close>

definition geo_inv :: "geo \<Rightarrow> bool" where
  "geo_inv g = (distinct (queue g) \<and>
     (\<forall>r. (r \<in> set (queue g)) =
          (callbacks g r = Some Installed \<or> callbacks g r = Some NoCallback)) \<and>
     (\<forall>r. promises g r = Some Pending \<longrightarrow> callbacks g r = Some Installed) \<and>
     (\<forall>r. next_ref g \<le> r \<longrightarrow> callbacks g r = None \<and> promises g r = None))"

section \<open>Properties of the registry\<close>

subsection \<open>Lookup, removal and the invariant\<close>

lemma maps_select_None_iff: "(maps_select name ms = None) = (name \<notin> set (maps_list ms))"
  by (induction ms) (auto simp: maps_list_def)

lemma maps_select_SomeD: "maps_select name ms = Some m \<Longrightarrow> m \<in> set ms \<and> item_name m = name"
  by (induction ms) (auto split: if_splits)

lemma maps_select_distinct:
  "distinct (maps_list ms) \<Longrightarrow> m \<in> set ms \<Longrightarrow> maps_select (item_name m) ms = Some m"
  by (induction ms) (auto simp: maps_list_def)

lemma maps_remove_fst: "fst (maps_remove name ms) = (name \<in> set (maps_list ms))"
  by (induction ms) (auto simp: maps_list_def split: prod.splits)

lemma maps_remove_subset: "set (snd (maps_remove name ms)) \<subseteq> set ms"
  by (induction ms) (auto split: prod.splits)

lemma maps_remove_list:
  "distinct (maps_list ms) \<Longrightarrow>
   maps_list (snd (maps_remove name ms)) = filter (\<lambda>n. n \<noteq> name) (maps_list ms)"
proof (induction ms)
  case Nil
  show ?case by (simp add: maps_list_def)
next
  case (Cons m ms)
  show ?case
  proof (cases "item_name m = name")
    case True
    with Cons.prems have "name \<notin> set (maps_list ms)"
      by (auto simp: maps_list_def)
    then have "filter (\<lambda>n. n \<noteq> name) (maps_list ms) = maps_list ms"
      by (auto simp: filter_id_conv)
    with True show ?thesis by (simp add: maps_list_def)
  next
    case False
    with Cons show ?thesis
      by (cases "maps_remove name ms") (simp add: maps_list_def)
  qed
qed

lemma removeMap_store:
  "maps_store (snd (removeMap name s)) = snd (maps_remove (default_name name) (maps_store s))"
  by (simp add: removeMap_def split: prod.splits)

lemma addMap_store:
  "maps_store (snd (addMap name mp s)) =
   snd (maps_add (if is_gmap name then JStr (''map-'' @ toString36 (mapIter s + 1)) else name)
                 (if is_gmap name then name else mp) (maps_store s))"
  by (simp add: addMap_def Let_def split: prod.splits)

lemma maps_remove_last:
  "distinct (maps_list (xs @ [m])) \<Longrightarrow> maps_remove (item_name m) (xs @ [m]) = (True, xs)"
  by (induction xs) (auto simp: maps_list_def)

lemma wf_store_add: "wf_store ms \<Longrightarrow> wf_store (snd (maps_add name mp ms))"
  by (auto simp: wf_store_def maps_add_def Let_def maps_select_None_iff maps_list_def)

lemma wf_store_remove: "wf_store ms \<Longrightarrow> wf_store (snd (maps_remove name ms))"
  using maps_remove_subset [of name ms] maps_remove_list [of ms name]
  by (auto simp: wf_store_def)

lemma removeAll_loop_fields:
  "mapIter (removeAll_loop list k s) = mapIter s \<and>
   warnings (removeAll_loop list k s) = warnings s \<and>
   triggered (removeAll_loop list k s) = triggered s"
  by (induction k arbitrary: s) (auto simp: removeMap_def split: prod.splits)

lemma removeAll_loop_store:
  "wf_store ms0 \<Longrightarrow> k \<le> length ms0 \<Longrightarrow> maps_store s = take k ms0 \<Longrightarrow>
   maps_store (removeAll_loop (maps_list ms0) k s) = []"
proof (induction k arbitrary: s)
  case 0
  then show ?case by simp
next
  case (Suc i)
  let ?m = "ms0 ! i"
  from Suc.prems have i: "i < length ms0" by simp
  then have tk: "take (Suc i) ms0 = take i ms0 @ [?m]"
    by (simp add: take_Suc_conv_app_nth)
  from Suc.prems(1) i have str: "is_string (item_name ?m)"
    by (simp add: wf_store_def)
  then have dn: "default_name (item_name ?m) = item_name ?m"
    by (cases "item_name ?m") (simp_all add: default_name_def)
  from Suc.prems(1) have "distinct (maps_list (take (Suc i) ms0))"
    by (simp add: wf_store_def maps_list_def take_map [symmetric] del: take_Suc)
  then have "maps_remove (item_name ?m) (take (Suc i) ms0) = (True, take i ms0)"
    unfolding tk by (rule maps_remove_last)
  with Suc.prems(3) dn i have "maps_store (snd (removeMap (maps_list ms0 ! i) s)) = take i ms0"
    by (simp add: removeMap_def maps_list_def)
  with Suc.IH [of "snd (removeMap (maps_list ms0 ! i) s)"] Suc.prems(1) i
  show ?case by simp
qed

lemma removeAll_wf:
  "wf_store (maps_store s) \<Longrightarrow>
   removeAll s = (True, s\<lparr>maps_store := [], mapIter := 0\<rparr>)"
proof -
  assume wf: "wf_store (maps_store s)"
  let ?s1 = "removeAll_loop (service_list s) (length (service_list s)) s"
  have "maps_store ?s1 = []"
    using removeAll_loop_store [OF wf, of "length (maps_store s)" s]
    by (simp add: service_list_def maps_list_def)
  moreover have "mapIter ?s1 = mapIter s" "warnings ?s1 = warnings s" "triggered ?s1 = triggered s"
    using removeAll_loop_fields by blast+
  ultimately have "?s1 = s\<lparr>maps_store := []\<rparr>" by simp
  then show ?thesis
    by (simp add: removeAll_def Let_def service_list_def maps_list_def)
qed

lemma step_wf: "wf_store (maps_store s) \<Longrightarrow> wf_store (maps_store (step c s))"
proof (cases c)
  case (AddMap name mp)
  assume "wf_store (maps_store s)"
  with AddMap show ?thesis by (simp add: addMap_store wf_store_add)
next
  case RemoveAll
  assume "wf_store (maps_store s)"
  with RemoveAll show ?thesis by (simp add: removeAll_wf wf_store_def maps_list_def)
qed (auto simp: wf_store_add wf_store_remove removeMap_store refreshMap_def maps_refresh_def
    split: option.splits)

lemma reachable_wf: "reachable s \<Longrightarrow> wf_store (maps_store s)"
proof (induction rule: reachable.induct)
  case reachable_init
  show ?case by (simp add: init_service_def wf_store_def maps_list_def)
next
  case (reachable_step s c)
  then show ?case by (simp add: step_wf)
qed

lemma default_name_string: "is_string name \<Longrightarrow> default_name name = name"
  by (cases name) (simp_all add: default_name_def)

lemma maps_add_fresh:
  "is_string name \<Longrightarrow> is_gmap mp \<Longrightarrow> name \<notin> set (maps_list ms) \<Longrightarrow>
   maps_add name mp ms =
     (Inr \<lparr>item_name = name, item_map = mp\<rparr>, ms @ [\<lparr>item_name = name, item_map = mp\<rparr>])"
  by (simp add: maps_add_def Let_def maps_select_None_iff)

lemma maps_add_taken:
  "name \<in> set (maps_list ms) \<Longrightarrow>
   maps_add name mp ms =
     (Inl (if \<not> is_string name then NameNotString
           else if \<not> is_gmap mp then NotMapInstance else NameTaken), ms)"
  by (simp add: maps_add_def maps_select_None_iff)

lemma maps_add_InrD:
  "maps_add name mp ms = (Inr item, ms') \<Longrightarrow>
   is_string name \<and> is_gmap mp \<and> name \<notin> set (maps_list ms) \<and>
   item = \<lparr>item_name = name, item_map = mp\<rparr> \<and> ms' = ms @ [item]"
  by (auto simp: maps_add_def Let_def maps_select_None_iff split: if_splits)

lemma toString36_1: "toString36 (Suc 0) = ''1''"
  by (simp add: toString36.simps digit36_def digits36_def)

lemma run_ops_names:
  "distinct (maps_list ms0) \<Longrightarrow> run_ops ops ms0 = Some ms \<Longrightarrow>
   maps_list ms = expected_names ops (maps_list ms0) \<and> distinct (maps_list ms)"
proof (induction ops arbitrary: ms0)
  case Nil
  then show ?case by simp
next
  case (Cons op ops)
  show ?case
  proof (cases op)
    case (Add name mp)
    with Cons.prems(2) obtain item ms1 where
      a: "maps_add name mp ms0 = (Inr item, ms1)" and r: "run_ops ops ms1 = Some ms"
      by (auto split: prod.splits sum.splits)
    from maps_add_InrD [OF a] Cons.prems(1)
    have "maps_list ms1 = maps_list ms0 @ [name]" "distinct (maps_list ms1)"
      by (auto simp: maps_list_def)
    from Cons.IH [OF this(2) r] this(1) Add show ?thesis by auto
  next
    case (Remove name)
    with Cons.prems(2) obtain ms1 where
      a: "maps_remove name ms0 = (True, ms1)" and r: "run_ops ops ms1 = Some ms"
      by (auto split: prod.splits bool.splits)
    from maps_remove_list [OF Cons.prems(1), of name] a
    have l: "maps_list ms1 = filter (\<lambda>n. n \<noteq> name) (maps_list ms0)" by simp
    with Cons.prems(1) have d: "distinct (maps_list ms1)" by simp
    from Cons.IH [OF d r] l Remove show ?thesis by auto
  qed
qed

subsection \<open>Duplicate names\<close>

text \<open>
  Claim C2. In every store, \<^verbatim>\<open>add\<close> with a name that is already registered throws, and
  the store after the failed call is the store before it. The error is one of the three
  validation errors of \<^verbatim>\<open>add\<close>; it is "name is taken" when the name is a string and
  the handle a map instance (the two earlier checks pass).
\<close>

theorem maps_add_duplicate_fails:
  "name \<in> set (maps_list ms) \<Longrightarrow>
   (\<exists>e. maps_add name mp ms = (Inl e, ms)) \<and>
   (is_string name \<and> is_gmap mp \<longrightarrow> maps_add name mp ms = (Inl NameTaken, ms))"
  by (simp add: maps_add_taken)

theorem maps_add_duplicate_fails_witness:
  "maps_add (JStr ''main-map'') (GMap 1) [\<lparr>item_name = JStr ''main-map'', item_map = GMap 0\<rparr>]
     = (Inl NameTaken, [\<lparr>item_name = JStr ''main-map'', item_map = GMap 0\<rparr>])"
  using maps_add_duplicate_fails
    [of "JStr ''main-map''" "[\<lparr>item_name = JStr ''main-map'', item_map = GMap 0\<rparr>]" "GMap 1"]
  by (simp add: maps_list_def)

subsection \<open>The listing after a run of additions and removals\<close>

text \<open>
  Claim C3. After any finite run of successful \<^verbatim>\<open>add\<close> and \<^verbatim>\<open>remove\<close> calls from the
  empty store, \<^verbatim>\<open>list()\<close> is the list the specification describes (names in the order
  added, a removal deleting its name and keeping the order of the others); no name
  occurs twice in it, and a name is listed exactly when \<^verbatim>\<open>select\<close> finds a map under it.
\<close>

theorem list_reflects_ops:
  "run_ops ops [] = Some ms \<Longrightarrow>
   maps_list ms = expected_names ops [] \<and> distinct (maps_list ms) \<and>
   (\<forall>name. (maps_select name ms \<noteq> None) = (name \<in> set (maps_list ms)))"
proof -
  assume "run_ops ops [] = Some ms"
  with run_ops_names [of "[]" ops ms]
  have "maps_list ms = expected_names ops []" "distinct (maps_list ms)"
    by (auto simp: maps_list_def)
  then show ?thesis by (simp only: maps_select_None_iff) simp
qed

theorem list_reflects_ops_witness:
  "run_ops [Add (JStr ''a'') (GMap 0), Add (JStr ''b'') (GMap 1), Add (JStr ''c'') (GMap 2),
            Remove (JStr ''b'')] []
     = Some [\<lparr>item_name = JStr ''a'', item_map = GMap 0\<rparr>, \<lparr>item_name = JStr ''c'', item_map = GMap 2\<rparr>] \<and>
   maps_list [\<lparr>item_name = JStr ''a'', item_map = GMap 0\<rparr>, \<lparr>item_name = JStr ''c'', item_map = GMap 2\<rparr>]
     = [JStr ''a'', JStr ''c'']"
proof -
  have r: "run_ops [Add (JStr ''a'') (GMap 0), Add (JStr ''b'') (GMap 1), Add (JStr ''c'') (GMap 2),
            Remove (JStr ''b'')] []
     = Some [\<lparr>item_name = JStr ''a'', item_map = GMap 0\<rparr>, \<lparr>item_name = JStr ''c'', item_map = GMap 2\<rparr>]"
    by (simp add: maps_add_def Let_def)
  from list_reflects_ops [OF r] r show ?thesis by simp
qed

subsection \<open>\<^verbatim>\<open>removeAll\<close> and the next generated name\<close>

text \<open>
  The claim C1 as stated, with the generated name \<^verbatim>\<open>map-0\<close>, fails already on the
  initial service: \<^verbatim>\<open>removeAll\<close> sets the counter to 0 and \<^verbatim>\<open>addMap\<close> increments it
  before it builds the name.
\<close>

theorem removeAll_then_addMap_counterexample:
  "service_list (snd (addMap (GMap 0) Undefined (snd (removeAll init_service)))) \<noteq> [JStr ''map-0'']"
  by (simp add: removeAll_def init_service_def service_list_def maps_list_def addMap_def
      maps_add_def Let_def toString36_1)

text \<open>
  Claim C1, amended. In every reachable state \<^verbatim>\<open>removeAll()\<close> returns true and leaves
  the registry empty and the counter at 0, and the next \<^verbatim>\<open>addMap(handle)\<close> registers the
  handle under the generated name \<^verbatim>\<open>map-1\<close>.
\<close>

theorem removeAll_then_addMap:
  assumes "reachable s"
  shows "fst (removeAll s) = True \<and> service_list (snd (removeAll s)) = [] \<and>
    addMap (GMap r) Undefined (snd (removeAll s)) =
      (Inr \<lparr>item_name = JStr ''map-1'', item_map = GMap r\<rparr>,
       s\<lparr>maps_store := [\<lparr>item_name = JStr ''map-1'', item_map = GMap r\<rparr>], mapIter := 1\<rparr>) \<and>
    service_list (snd (addMap (GMap r) Undefined (snd (removeAll s)))) = [JStr ''map-1'']"
proof -
  from assms have "removeAll s = (True, s\<lparr>maps_store := [], mapIter := 0\<rparr>)"
    by (simp add: reachable_wf removeAll_wf)
  then show ?thesis
    by (simp add: service_list_def maps_list_def addMap_def maps_add_def Let_def toString36_1)
qed

theorem removeAll_then_addMap_witness:
  "reachable (step (AddMap (JStr ''main-map'') (GMap 0)) init_service) \<and>
   service_list (step (AddMap (JStr ''main-map'') (GMap 0)) init_service) = [JStr ''main-map''] \<and>
   service_list (snd (removeAll (step (AddMap (JStr ''main-map'') (GMap 0)) init_service))) = [] \<and>
   service_list (snd (addMap (GMap 7) Undefined
      (snd (removeAll (step (AddMap (JStr ''main-map'') (GMap 0)) init_service))))) = [JStr ''map-1'']"
proof -
  have r: "reachable (step (AddMap (JStr ''main-map'') (GMap 0)) init_service)"
    by (rule reachable_step [OF reachable_init])
  have l: "service_list (step (AddMap (JStr ''main-map'') (GMap 0)) init_service) = [JStr ''main-map'']"
    by (simp add: addMap_def init_service_def maps_add_def Let_def service_list_def maps_list_def)
  from removeAll_then_addMap [OF r, of 7] r l show ?thesis by blast
qed

subsection \<open>The counter and the generated names\<close>

lemma addMap_mapIter: "mapIter (snd (addMap name mp s)) = mapIter s + 1"
  by (simp add: addMap_def Let_def split: prod.splits)

lemma addMap_generated:
  "is_gmap name \<Longrightarrow>
   addMap name mp s =
     (if JStr (''map-'' @ toString36 (mapIter s + 1)) \<in> set (service_list s)
      then (Inl NameTaken, s\<lparr>mapIter := mapIter s + 1\<rparr>)
      else (Inr \<lparr>item_name = JStr (''map-'' @ toString36 (mapIter s + 1)), item_map = name\<rparr>,
            s\<lparr>maps_store := maps_store s @
                 [\<lparr>item_name = JStr (''map-'' @ toString36 (mapIter s + 1)), item_map = name\<rparr>],
              mapIter := mapIter s + 1\<rparr>))"
  by (simp add: addMap_def Let_def maps_add_taken maps_add_fresh service_list_def)

lemma addMap_named:
  "\<not> is_gmap name \<Longrightarrow>
   addMap name mp s =
     (fst (maps_add name mp (maps_store s)),
      s\<lparr>maps_store := snd (maps_add name mp (maps_store s)), mapIter := mapIter s + 1\<rparr>)"
  by (simp add: addMap_def Let_def split: prod.splits)

lemma reachable_names_strings: "reachable s \<Longrightarrow> name \<in> set (service_list s) \<Longrightarrow> is_string name"
  using reachable_wf [of s] by (auto simp: wf_store_def service_list_def maps_list_def)


lemma selectMap_stored:
  "wf_store (maps_store s) \<Longrightarrow> m \<in> set (maps_store s) \<Longrightarrow>
   selectMap (item_name m) s = item_map m \<and> is_gmap (item_map m)"
proof -
  assume wf: "wf_store (maps_store s)" and m: "m \<in> set (maps_store s)"
  then have g: "is_gmap (item_map m)" and str: "is_string (item_name m)"
    and d: "distinct (maps_list (maps_store s))"
    by (simp_all add: wf_store_def)
  from g have "truthy (item_map m)" by (cases "item_map m") simp_all
  with maps_select_distinct [OF d m] default_name_string [OF str] g
  show ?thesis by (simp add: selectMap_def)
qed

lemma is_gmap_truthy: "is_gmap v \<Longrightarrow> truthy v \<and> v \<noteq> Null"
  by (cases v) simp_all

text \<open>\<open>toString36\<close> writes its argument in base 36.\<close>

lemma digit36_value:
  "\<forall>d \<in> set [0..<36]. nat (indexOf (digit36 d) digits36) = d"
  by code_simp

lemma digit36_value_less: "d < 36 \<Longrightarrow> nat (indexOf (digit36 d) digits36) = d"
proof -
  assume "d < 36"
  then have "d \<in> set [0..<36]" by (simp del: upt_rec_numeral)
  with digit36_value show ?thesis by blast
qed

lemma parseInt36_Nil: "parseInt36 [] = 0"
  by (simp add: parseInt36_def)

lemma parseInt36_snoc:
  "d < 36 \<Longrightarrow> parseInt36 (ds @ [digit36 d]) = 36 * parseInt36 ds + d"
  by (simp add: parseInt36_def digit36_value_less)

lemma toString36_base36: "parseInt36 (toString36 n) = n"
proof (induction n rule: toString36.induct)
  case (1 n)
  show ?case
  proof (cases "n < 36")
    case True
    then have "toString36 n = [] @ [digit36 n]"
      by (subst toString36.simps) simp
    then have "parseInt36 (toString36 n) = 36 * parseInt36 [] + n"
      using parseInt36_snoc [OF True, of "[]"] by (simp only:)
    then show ?thesis by (simp add: parseInt36_Nil)
  next
    case False
    then have e: "toString36 n = toString36 (n div 36) @ [digit36 (n mod 36)]"
      by (subst toString36.simps) simp
    have m: "n mod 36 < 36" by simp
    have "parseInt36 (toString36 n) = 36 * parseInt36 (toString36 (n div 36)) + n mod 36"
      using parseInt36_snoc [OF m, of "toString36 (n div 36)"] by (simp only: e)
    also have "\<dots> = 36 * (n div 36) + n mod 36"
      by (simp only: 1 [OF False])
    also have "\<dots> = n" by simp
    finally show ?thesis .
  qed
qed

lemma toString36_2: "toString36 (Suc (Suc 0)) = ''2''"
  by (simp add: toString36.simps digit36_def digits36_def)

lemma step_AddMap_main:
  "step (AddMap (JStr ''main-map'') (GMap 3)) init_service =
     \<lparr>maps_store = [\<lparr>item_name = JStr ''main-map'', item_map = GMap 3\<rparr>], mapIter = 1,
      warnings = [], triggered = []\<rparr>"
  by (simp add: addMap_def maps_add_def Let_def init_service_def)

text \<open>
  Claim C7. Every call of \<^verbatim>\<open>addMap\<close> increments the counter by exactly one, whether it
  returns or throws (a call that throws changes nothing else). Called with a map handle as
  first argument, it builds the name \<^verbatim>\<open>map-\<close> followed by the base-36 digits of the
  incremented counter and hands it to \<^verbatim>\<open>add\<close>: the handle is registered under it, or
  the call fails because that name is taken.
\<close>

theorem addMap_counter_and_generated_name:
  "mapIter (snd (addMap name mp s)) = mapIter s + 1 \<and>
   (\<forall>e. fst (addMap name mp s) = Inl e \<longrightarrow>
      snd (addMap name mp s) = s\<lparr>mapIter := mapIter s + 1\<rparr>) \<and>
   (is_gmap name \<longrightarrow>
      parseInt36 (toString36 (mapIter s + 1)) = mapIter s + 1 \<and>
      addMap name mp s =
        (if JStr (''map-'' @ toString36 (mapIter s + 1)) \<in> set (service_list s)
         then (Inl NameTaken, s\<lparr>mapIter := mapIter s + 1\<rparr>)
         else (Inr \<lparr>item_name = JStr (''map-'' @ toString36 (mapIter s + 1)), item_map = name\<rparr>,
               s\<lparr>maps_store := maps_store s @
                    [\<lparr>item_name = JStr (''map-'' @ toString36 (mapIter s + 1)), item_map = name\<rparr>],
                 mapIter := mapIter s + 1\<rparr>)))"
proof (intro conjI allI impI)
  show "mapIter (snd (addMap name mp s)) = mapIter s + 1"
    by (rule addMap_mapIter)
next
  fix e
  assume "fst (addMap name mp s) = Inl e"
  then show "snd (addMap name mp s) = s\<lparr>mapIter := mapIter s + 1\<rparr>"
    by (auto simp: addMap_def Let_def maps_add_def split: prod.splits if_splits)
next
  show "parseInt36 (toString36 (mapIter s + 1)) = mapIter s + 1"
    by (rule toString36_base36)
next
  assume "is_gmap name"
  then show "addMap name mp s =
        (if JStr (''map-'' @ toString36 (mapIter s + 1)) \<in> set (service_list s)
         then (Inl NameTaken, s\<lparr>mapIter := mapIter s + 1\<rparr>)
         else (Inr \<lparr>item_name = JStr (''map-'' @ toString36 (mapIter s + 1)), item_map = name\<rparr>,
               s\<lparr>maps_store := maps_store s @
                    [\<lparr>item_name = JStr (''map-'' @ toString36 (mapIter s + 1)), item_map = name\<rparr>],
                 mapIter := mapIter s + 1\<rparr>))"
    by (rule addMap_generated)
qed

theorem addMap_counter_and_generated_name_witness:
  "fst (addMap Undefined (GMap 0) init_service) = Inl NameNotString \<and>
   snd (addMap Undefined (GMap 0) init_service) = init_service\<lparr>mapIter := 1\<rparr> \<and>
   fst (addMap (GMap 0) Undefined (init_service\<lparr>mapIter := 1\<rparr>)) =
     Inr \<lparr>item_name = JStr ''map-2'', item_map = GMap 0\<rparr>"
proof -
  have f: "fst (addMap Undefined (GMap 0) init_service) = Inl NameNotString"
    by (simp add: addMap_def maps_add_def Let_def)
  have g: "is_gmap (GMap 0)" by simp
  have n: "JStr (''map-'' @ toString36 (mapIter (init_service\<lparr>mapIter := 1\<rparr>) + 1))
             \<notin> set (service_list (init_service\<lparr>mapIter := 1\<rparr>))"
    by (simp add: service_list_def maps_list_def init_service_def)
  from addMap_counter_and_generated_name [of Undefined "GMap 0" init_service] f
  have a: "snd (addMap Undefined (GMap 0) init_service) = init_service\<lparr>mapIter := 1\<rparr>"
    by (simp add: init_service_def)
  from addMap_counter_and_generated_name [of "GMap 0" Undefined "init_service\<lparr>mapIter := 1\<rparr>"] g n
  have "fst (addMap (GMap 0) Undefined (init_service\<lparr>mapIter := 1\<rparr>)) =
     Inr \<lparr>item_name = JStr ''map-2'', item_map = GMap 0\<rparr>"
    by (simp add: toString36_2)
  with f a show ?thesis by blast
qed

subsection \<open>Names are strings; which calls generate a name\<close>

text \<open>
  The claim C6 as stated fails in its second half: \<^verbatim>\<open>addMap('', map)\<close> registers the map
  under the empty name, and \<^verbatim>\<open>addMap(undefined, map)\<close> throws "name must be a string".
  Neither call generates a name.
\<close>

theorem addMap_empty_or_undefined_name_counterexample:
  "addMap (JStr []) (GMap 0) init_service =
     (Inr \<lparr>item_name = JStr [], item_map = GMap 0\<rparr>,
      init_service\<lparr>maps_store := [\<lparr>item_name = JStr [], item_map = GMap 0\<rparr>], mapIter := 1\<rparr>) \<and>
   addMap Undefined (GMap 0) init_service = (Inl NameNotString, init_service\<lparr>mapIter := 1\<rparr>)"
  by (simp add: addMap_def maps_add_def Let_def init_service_def)

text \<open>
  Claim C6, amended. In every reachable state every registered name is a string. A name
  is generated, from the counter that every \<^verbatim>\<open>addMap\<close> call increments by one, when
  \<^verbatim>\<open>addMap\<close> is called with a map handle as its first argument (and registered when it
  is free). Any other first argument is handed to \<^verbatim>\<open>add\<close> as the name, unchanged: called
  with \<^verbatim>\<open>undefined\<close> as name, \<^verbatim>\<open>addMap\<close> throws and registers nothing; called with the
  empty string and a map handle, it registers the handle under the empty name when that
  name is free.
\<close>

theorem names_are_strings_and_generated:
  assumes "reachable s"
  shows "(\<forall>name \<in> set (service_list s). is_string name) \<and>
    mapIter (snd (addMap name mp s)) = mapIter s + 1 \<and>
    (is_gmap name \<longrightarrow>
       JStr (''map-'' @ toString36 (mapIter s + 1)) \<notin> set (service_list s) \<longrightarrow>
       fst (addMap name mp s) =
         Inr \<lparr>item_name = JStr (''map-'' @ toString36 (mapIter s + 1)), item_map = name\<rparr>) \<and>
    (\<not> is_gmap name \<longrightarrow> fst (addMap name mp s) = fst (maps_add name mp (maps_store s))) \<and>
    addMap Undefined mp s = (Inl NameNotString, s\<lparr>mapIter := mapIter s + 1\<rparr>) \<and>
    (is_gmap mp \<longrightarrow> JStr [] \<notin> set (service_list s) \<longrightarrow>
       addMap (JStr []) mp s =
         (Inr \<lparr>item_name = JStr [], item_map = mp\<rparr>,
          s\<lparr>maps_store := maps_store s @ [\<lparr>item_name = JStr [], item_map = mp\<rparr>],
            mapIter := mapIter s + 1\<rparr>))"
proof (intro conjI ballI impI)
  fix n assume "n \<in> set (service_list s)"
  with assms show "is_string n" by (rule reachable_names_strings)
next
  show "mapIter (snd (addMap name mp s)) = mapIter s + 1" by (rule addMap_mapIter)
next
  assume "is_gmap name" "JStr (''map-'' @ toString36 (mapIter s + 1)) \<notin> set (service_list s)"
  then show "fst (addMap name mp s) =
         Inr \<lparr>item_name = JStr (''map-'' @ toString36 (mapIter s + 1)), item_map = name\<rparr>"
    by (simp add: addMap_generated)
next
  assume "\<not> is_gmap name"
  then show "fst (addMap name mp s) = fst (maps_add name mp (maps_store s))"
    by (simp add: addMap_named)
next
  show "addMap Undefined mp s = (Inl NameNotString, s\<lparr>mapIter := mapIter s + 1\<rparr>)"
    by (simp add: addMap_named maps_add_def)
next
  assume "is_gmap mp" "JStr [] \<notin> set (service_list s)"
  then show "addMap (JStr []) mp s =
         (Inr \<lparr>item_name = JStr [], item_map = mp\<rparr>,
          s\<lparr>maps_store := maps_store s @ [\<lparr>item_name = JStr [], item_map = mp\<rparr>],
            mapIter := mapIter s + 1\<rparr>)"
    by (simp add: addMap_named maps_add_fresh service_list_def)
qed

theorem names_are_strings_and_generated_witness:
  "reachable (step (AddMap (JStr ''main-map'') (GMap 3)) init_service) \<and>
   service_list (step (AddMap (JStr ''main-map'') (GMap 3)) init_service) = [JStr ''main-map''] \<and>
   is_string (JStr ''main-map'') \<and>
   fst (addMap (GMap 1) (GMap 2) (step (AddMap (JStr ''main-map'') (GMap 3)) init_service)) =
     Inr \<lparr>item_name = JStr ''map-2'', item_map = GMap 1\<rparr> \<and>
   fst (addMap Undefined (GMap 2) (step (AddMap (JStr ''main-map'') (GMap 3)) init_service)) =
     Inl NameNotString \<and>
   fst (addMap (JStr []) (GMap 2) (step (AddMap (JStr ''main-map'') (GMap 3)) init_service)) =
     Inr \<lparr>item_name = JStr [], item_map = GMap 2\<rparr> \<and>
   fst (addMap (JStr ''second'') (GMap 2) (step (AddMap (JStr ''main-map'') (GMap 3)) init_service)) =
     Inr \<lparr>item_name = JStr ''second'', item_map = GMap 2\<rparr>"
proof -
  let ?s = "step (AddMap (JStr ''main-map'') (GMap 3)) init_service"
  have r: "reachable ?s"
    by (rule reachable_step [OF reachable_init])
  have l: "service_list ?s = [JStr ''main-map'']"
    by (simp only: step_AddMap_main) (simp add: service_list_def maps_list_def)
  have i: "mapIter ?s = 1"
    by (simp only: step_AddMap_main) simp
  have g: "toString36 (mapIter ?s + 1) = ''2''"
    by (simp only: i) (simp add: toString36_2)
  note t = names_are_strings_and_generated [OF r, of "GMap 1" "GMap 2"]
  from t l have 1: "is_string (JStr ''main-map'')"
    by (simp del: step.simps is_string.simps)
  from t l g have 2: "fst (addMap (GMap 1) (GMap 2) ?s) = Inr \<lparr>item_name = JStr ''map-2'', item_map = GMap 1\<rparr>"
    by (simp del: step.simps)
  from t have 3: "fst (addMap Undefined (GMap 2) ?s) = Inl NameNotString"
    by (simp del: step.simps)
  from t l have 4: "fst (addMap (JStr []) (GMap 2) ?s) = Inr \<lparr>item_name = JStr [], item_map = GMap 2\<rparr>"
    by (simp del: step.simps)
  have a: "fst (maps_add (JStr ''second'') (GMap 2) (maps_store ?s)) =
      Inr \<lparr>item_name = JStr ''second'', item_map = GMap 2\<rparr>"
    by (simp only: step_AddMap_main) (simp add: maps_add_def Let_def)
  from names_are_strings_and_generated [OF r, of "JStr ''second''" "GMap 2"] a
  have 5: "fst (addMap (JStr ''second'') (GMap 2) ?s) =
      Inr \<lparr>item_name = JStr ''second'', item_map = GMap 2\<rparr>"
    by (simp del: step.simps)
  from r l 1 2 3 4 5 show ?thesis by blast
qed

subsection \<open>\<^verbatim>\<open>selectMap\<close>\<close>




text \<open>
  Claim C10. In every reachable state every stored map field is a map instance, hence
  truthy, so \<^verbatim>\<open>selectMap\<close> never returns \<^verbatim>\<open>null\<close> for a registered name: it returns a
  map instance.
\<close>

theorem selectMap_registered_not_null:
  assumes "reachable s"
  shows "(\<forall>m \<in> set (maps_store s). is_gmap (item_map m) \<and> truthy (item_map m)) \<and>
    (name \<in> set (service_list s) \<longrightarrow> selectMap name s \<noteq> Null \<and> is_gmap (selectMap name s))"
proof (intro conjI ballI impI)
  from assms have wf: "wf_store (maps_store s)" by (rule reachable_wf)
  {
    fix m assume "m \<in> set (maps_store s)"
    with wf have g: "is_gmap (item_map m)" by (simp add: wf_store_def)
    then show "is_gmap (item_map m)" .
    from g show "truthy (item_map m)" by (simp add: is_gmap_truthy)
  }
  assume "name \<in> set (service_list s)"
  then obtain m where m: "m \<in> set (maps_store s)" and n: "item_name m = name"
    by (auto simp: service_list_def maps_list_def)
  from selectMap_stored [OF wf m] n
  have s: "selectMap name s = item_map m" and g: "is_gmap (item_map m)" by simp_all
  from s g show "is_gmap (selectMap name s)" by simp
  from s g show "selectMap name s \<noteq> Null" by (simp add: is_gmap_truthy)
qed

theorem selectMap_registered_not_null_witness:
  "reachable (step (AddMap (GMap 5) Undefined) init_service) \<and>
   maps_store (step (AddMap (GMap 5) Undefined) init_service) =
     [\<lparr>item_name = JStr ''map-1'', item_map = GMap 5\<rparr>] \<and>
   truthy (GMap 5) \<and>
   selectMap (JStr ''map-1'') (step (AddMap (GMap 5) Undefined) init_service) \<noteq> Null"
proof -
  let ?s = "step (AddMap (GMap 5) Undefined) init_service"
  have r: "reachable ?s"
    by (rule reachable_step [OF reachable_init])
  have st: "maps_store ?s = [\<lparr>item_name = JStr ''map-1'', item_map = GMap 5\<rparr>]"
    by (simp add: addMap_def init_service_def maps_add_def Let_def toString36_1)
  then have l: "JStr ''map-1'' \<in> set (service_list ?s)"
    by (simp only: service_list_def maps_list_def) simp
  note t = selectMap_registered_not_null [OF r, of "JStr ''map-1''"]
  from t st have 1: "truthy (GMap 5)" by (simp del: step.simps truthy.simps)
  from t l have 2: "selectMap (JStr ''map-1'') ?s \<noteq> Null" by blast
  from r st 1 2 show ?thesis by blast
qed

subsection \<open>\<^verbatim>\<open>refreshMap\<close>\<close>

text \<open>
  The claim C9 as stated fails for two names that are not registered. The name
  \<^verbatim>\<open>undefined\<close> is never registered, but the default parameter \<^verbatim>\<open>name = ''\<close> makes
  \<^verbatim>\<open>refreshMap()\<close> refresh the map registered under the empty string and return true.
  And for an object with no conversion to a string the template literal of the warning
  throws a TypeError before anything is logged.
\<close>

theorem refreshMap_not_registered_counterexample:
  "Undefined \<notin> set (service_list (step (AddMap (JStr []) (GMap 0)) init_service)) \<and>
   fst (refreshMap (\<lambda>v. None) Undefined (step (AddMap (JStr []) (GMap 0)) init_service)) = Inr True \<and>
   JObj 1 \<notin> set (service_list init_service) \<and>
   refreshMap (\<lambda>v. None) (JObj 1) init_service = (Inl TypeError, init_service)"
  by (simp add: addMap_def maps_add_def Let_def init_service_def service_list_def maps_list_def
      refreshMap_def maps_refresh_def default_name_def template_text_def)

text \<open>
  Claim C9, amended. For every name other than \<^verbatim>\<open>undefined\<close> that is not registered and
  whose conversion to a string succeeds, as it does for every string, \<^verbatim>\<open>refreshMap\<close>
  returns false, logs one warning (the prefix followed by the name, or by
  \<^verbatim>\<open>(no map name given)\<close> for a falsy name) and does not throw; for every registered name
  it triggers \<^verbatim>\<open>resize\<close> on the handle stored under that name and returns true;
  \<^verbatim>\<open>refreshMap()\<close> and \<^verbatim>\<open>refreshMap(undefined)\<close> do what \<^verbatim>\<open>refreshMap('')\<close> does.
\<close>

theorem refreshMap_unknown_or_registered:
  "(name \<noteq> Undefined \<longrightarrow> name \<notin> set (service_list s) \<longrightarrow>
    template_text to_str (if truthy name then name else JStr ''(no map name given)'') = Some shown \<longrightarrow>
      refreshMap to_str name s =
        (Inr False,
         s\<lparr>warnings := warnings s @
              [''Attempted to refresh undefined GMap instance: '' @ shown]\<rparr>)) \<and>
   template_text to_str (JStr str) = Some str \<and>
   refreshMap to_str Undefined s = refreshMap to_str (JStr []) s \<and>
   (name \<noteq> Undefined \<longrightarrow> name \<in> set (service_list s) \<longrightarrow>
      (\<exists>m. maps_select name (maps_store s) = Some m \<and>
           m \<in> set (maps_store s) \<and> item_name m = name \<and>
           refreshMap to_str name s =
             (Inr True, s\<lparr>triggered := triggered s @ [(item_map m, ''resize'')]\<rparr>)))"
proof (intro conjI impI)
  assume "name \<noteq> Undefined" "name \<notin> set (service_list s)"
    and t: "template_text to_str (if truthy name then name else JStr ''(no map name given)'') = Some shown"
  then have "default_name name = name" "maps_select name (maps_store s) = None"
    by (simp_all add: default_name_def maps_select_None_iff service_list_def)
  with t show "refreshMap to_str name s =
        (Inr False,
         s\<lparr>warnings := warnings s @
              [''Attempted to refresh undefined GMap instance: '' @ shown]\<rparr>)"
    by (simp add: refreshMap_def maps_refresh_def)
next
  show "template_text to_str (JStr str) = Some str"
    by (simp add: template_text_def)
next
  show "refreshMap to_str Undefined s = refreshMap to_str (JStr []) s"
    by (simp add: refreshMap_def default_name_def)
next
  assume "name \<noteq> Undefined" "name \<in> set (service_list s)"
  then have d: "default_name name = name" and "maps_select name (maps_store s) \<noteq> None"
    by (simp_all add: default_name_def maps_select_None_iff service_list_def)
  then obtain m where m: "maps_select name (maps_store s) = Some m"
    by blast
  with maps_select_SomeD [OF m] d
  show "\<exists>m. maps_select name (maps_store s) = Some m \<and>
           m \<in> set (maps_store s) \<and> item_name m = name \<and>
           refreshMap to_str name s =
             (Inr True, s\<lparr>triggered := triggered s @ [(item_map m, ''resize'')]\<rparr>)"
    by (simp add: refreshMap_def maps_refresh_def)
qed

theorem refreshMap_unknown_or_registered_witness:
  "refreshMap (\<lambda>v. None) (JStr ''unknown'') init_service =
     (Inr False,
      init_service\<lparr>warnings := [''Attempted to refresh undefined GMap instance: unknown'']\<rparr>) \<and>
   refreshMap (\<lambda>v. None) Undefined init_service =
     (Inr False,
      init_service\<lparr>warnings :=
        [''Attempted to refresh undefined GMap instance: (no map name given)'']\<rparr>) \<and>
   refreshMap (\<lambda>v. None) (JStr ''main-map'')
       (init_service\<lparr>maps_store := [\<lparr>item_name = JStr ''main-map'', item_map = GMap 3\<rparr>]\<rparr>) =
     (Inr True,
      init_service\<lparr>maps_store := [\<lparr>item_name = JStr ''main-map'', item_map = GMap 3\<rparr>],
                   triggered := [(GMap 3, ''resize'')]\<rparr>)"
proof -
  let ?s = "init_service\<lparr>maps_store := [\<lparr>item_name = JStr ''main-map'', item_map = GMap 3\<rparr>]\<rparr>"
  have n: "JStr ''unknown'' \<notin> set (service_list init_service)"
    "JStr [] \<notin> set (service_list init_service)"
    by (simp_all add: service_list_def maps_list_def init_service_def)
  have y: "JStr ''main-map'' \<in> set (service_list ?s)"
    by (simp add: service_list_def maps_list_def)
  note t1 = refreshMap_unknown_or_registered
    [where name = "JStr ''unknown''" and s = init_service and to_str = "\<lambda>v. None"
       and shown = "''unknown''" and str = "''unknown''"]
  note t2 = refreshMap_unknown_or_registered
    [where name = "JStr []" and s = init_service and to_str = "\<lambda>v. None"
       and shown = "''(no map name given)''" and str = "''(no map name given)''"]
  note t3 = refreshMap_unknown_or_registered
    [where name = "JStr ''main-map''" and s = ?s and to_str = "\<lambda>v. None"]
  from t1 n(1)
  have 1: "refreshMap (\<lambda>v. None) (JStr ''unknown'') init_service =
     (Inr False,
      init_service\<lparr>warnings := [''Attempted to refresh undefined GMap instance: unknown'']\<rparr>)"
    by (simp add: init_service_def)
  from t2 n(2)
  have 2: "refreshMap (\<lambda>v. None) Undefined init_service =
     (Inr False,
      init_service\<lparr>warnings :=
        [''Attempted to refresh undefined GMap instance: (no map name given)'']\<rparr>)"
    by (simp add: init_service_def)
  from t3 y
  have 3: "refreshMap (\<lambda>v. None) (JStr ''main-map'') ?s =
     (Inr True, ?s\<lparr>triggered := [(GMap 3, ''resize'')]\<rparr>)"
    by (auto simp: init_service_def)
  from 1 2 3 show ?thesis by simp
qed

section \<open>Properties of the geocode queue\<close>

subsection \<open>\<^verbatim>\<open>indexOf\<close>, \<^verbatim>\<open>splice\<close> and the invariant\<close>

lemma indexOf_absent: "x \<notin> set xs \<Longrightarrow> indexOf x xs = - 1"
  by (induction xs) (auto simp: Let_def)

lemma indexOf_present: "x \<in> set xs \<Longrightarrow> 0 \<le> indexOf x xs \<and> indexOf x xs < int (length xs)"
  by (induction xs) (auto simp: Let_def indexOf_absent)

lemma splice1_Cons: "0 \<le> i \<Longrightarrow> splice1 (i + 1) (y # ys) = y # splice1 i ys"
  by (auto simp: splice1_def Let_def nat_add_distrib min_def)

lemma splice1_0: "splice1 0 (y # ys) = ys"
  by (simp add: splice1_def)

lemma splice1_indexOf: "x \<in> set xs \<Longrightarrow> splice1 (indexOf x xs) xs = remove1 x xs"
proof (induction xs)
  case Nil
  then show ?case by simp
next
  case (Cons y ys)
  show ?case
  proof (cases "y = x")
    case True
    then show ?thesis by (simp add: splice1_0)
  next
    case False
    with Cons.prems have m: "x \<in> set ys" by simp
    from indexOf_present [OF m] have "0 \<le> indexOf x ys" by simp
    with False Cons.IH [OF m] show ?thesis
      by (simp add: Let_def splice1_Cons)
  qed
qed

lemma callback_outcome_total:
  "callback_outcome h result status =
     Some (if status = JStr ''OK'' \<or> status = JStr ''ZERO_RESULTS'' then Fulfilled result
           else Rejected \<lparr>err_status = status,
                  err_message =
                    (case get_prop h result ''error_message'' of
                       Some m \<Rightarrow> if truthy result \<and> truthy m then Some m else None
                     | None \<Rightarrow> None)\<rparr>)"
  by (cases result) (simp_all add: callback_outcome_def Let_def)

lemma callback_outcome_settled:
  "\<exists>outcome. callback_outcome h result status = Some outcome \<and> outcome \<noteq> Pending"
  by (simp add: callback_outcome_total)

lemma settle_not_Pending: "outcome \<noteq> Pending \<Longrightarrow> settle outcome p \<noteq> Pending"
  by (simp add: settle_def)

lemma callback_installed:
  assumes "geo_inv g" and "callbacks g request = Some Installed"
  shows "\<exists>outcome. outcome \<noteq> Pending \<and>
     callback h request result status g =
       Some (g\<lparr>promises := (promises g)(request := map_option (settle outcome) (promises g request)),
              callbacks := (callbacks g)(request := Some Called),
              queue := remove1 request (queue g)\<rparr>)"
proof -
  from assms have "request \<in> set (queue g)" by (simp add: geo_inv_def)
  then have "splice1 (indexOf request (queue g)) (queue g) = remove1 request (queue g)"
    by (rule splice1_indexOf)
  moreover obtain outcome where "callback_outcome h result status = Some outcome"
    and "outcome \<noteq> Pending"
    using callback_outcome_settled by blast
  ultimately show ?thesis
    by (intro exI [of _ outcome]) (simp add: callback_def)
qed

lemma geo_inv_callback:
  assumes "geo_inv g" and "callbacks g request = Some Installed"
    and "callback h request result status g = Some g'"
  shows "geo_inv g'"
proof -
  from callback_installed [OF assms(1,2), of h result status] assms(3)
  obtain outcome where o: "outcome \<noteq> Pending"
    and g': "g' = g\<lparr>promises := (promises g)(request := map_option (settle outcome) (promises g request)),
              callbacks := (callbacks g)(request := Some Called),
              queue := remove1 request (queue g)\<rparr>"
    by auto
  from assms(1) have d: "distinct (queue g)"
    and q: "\<forall>r. (r \<in> set (queue g)) =
          (callbacks g r = Some Installed \<or> callbacks g r = Some NoCallback)"
    and p: "\<forall>r. promises g r = Some Pending \<longrightarrow> callbacks g r = Some Installed"
    and n: "\<forall>r. next_ref g \<le> r \<longrightarrow> callbacks g r = None \<and> promises g r = None"
    by (simp_all add: geo_inv_def)
  from n assms(2) have lt: "request < next_ref g"
    by (metis not_le option.distinct(1))
  have 1: "distinct (queue g')" using d by (simp add: g')
  have 2: "\<forall>r. (r \<in> set (queue g')) =
          (callbacks g' r = Some Installed \<or> callbacks g' r = Some NoCallback)"
    using d q by (auto simp: g')
  have 3: "\<forall>r. promises g' r = Some Pending \<longrightarrow> callbacks g' r = Some Installed"
    using p settle_not_Pending [OF o] by (auto simp: g')
  have 4: "\<forall>r. next_ref g' \<le> r \<longrightarrow> callbacks g' r = None \<and> promises g' r = None"
    using n lt by (auto simp: g')
  from 1 2 3 4 show ?thesis by (simp add: geo_inv_def)
qed

lemma geo_inv_geocode:
  "geo_inv g \<Longrightarrow> geo_inv (snd (geocode writable provider_throws options g))"
  by (auto simp: geo_inv_def geocode_def Let_def)

lemma geo_reachable_inv: "geo_reachable g \<Longrightarrow> geo_inv g"
proof (induction rule: geo_reachable.induct)
  case geo_init
  show ?case by (simp add: geo_inv_def init_geo_def)
next
  case (geo_submit g writable provider_throws options)
  then show ?case by (simp add: geo_inv_geocode)
next
  case (geo_callback g request h result status g')
  then show ?case by (blast intro: geo_inv_callback)
qed

subsection \<open>Settlement\<close>

text \<open>
  Claim C4. When the callback of a pending request is called with status \<^verbatim>\<open>"OK"\<close> or
  \<^verbatim>\<open>"ZERO_RESULTS"\<close>, the promise is fulfilled with the provider's result; with any other
  status it is rejected with an error whose \<^verbatim>\<open>status\<close> is that status, and which has a
  \<^verbatim>\<open>message\<close>, the result's \<^verbatim>\<open>error_message\<close>, exactly when the result is present and
  carries one. Present and carrying are JavaScript truthiness, as
  \<^verbatim>\<open>result && result.error_message\<close> tests them: a \<^verbatim>\<open>null\<close> or \<^verbatim>\<open>undefined\<close> result, or
  an absent or empty \<^verbatim>\<open>error_message\<close>, gives no \<^verbatim>\<open>message\<close>. The callback never throws.
  The promise \<^verbatim>\<open>geocode\<close> returns is pending when its executor ran through, and is
  rejected with the exception the executor threw otherwise.
\<close>

theorem geocode_callback_settles:
  "promises (snd (geocode writable provider_throws options g0))
      (fst (geocode writable provider_throws options g0)) =
     Some (if can_assign writable options \<and> \<not> provider_throws then Pending else Thrown) \<and>
   (promises g request = Some Pending \<longrightarrow>
      (\<exists>g'. callback h request result status g = Some g' \<and>
         promises g' request =
           Some (if status = JStr ''OK'' \<or> status = JStr ''ZERO_RESULTS'' then Fulfilled result
                 else Rejected \<lparr>err_status = status,
                        err_message =
                          (case get_prop h result ''error_message'' of
                             Some m \<Rightarrow> if truthy result \<and> truthy m then Some m else None
                           | None \<Rightarrow> None)\<rparr>)))"
proof (intro conjI impI)
  show "promises (snd (geocode writable provider_throws options g0))
      (fst (geocode writable provider_throws options g0)) =
     Some (if can_assign writable options \<and> \<not> provider_throws then Pending else Thrown)"
    by (simp add: geocode_def Let_def)
next
  assume "promises g request = Some Pending"
  then show "\<exists>g'. callback h request result status g = Some g' \<and>
         promises g' request =
           Some (if status = JStr ''OK'' \<or> status = JStr ''ZERO_RESULTS'' then Fulfilled result
                 else Rejected \<lparr>err_status = status,
                        err_message =
                          (case get_prop h result ''error_message'' of
                             Some m \<Rightarrow> if truthy result \<and> truthy m then Some m else None
                           | None \<Rightarrow> None)\<rparr>)"
    by (simp add: callback_def callback_outcome_total settle_def)
qed

theorem geocode_callback_settles_witness:
  "fst (geocode (\<lambda>r. True) False (JObj 1) init_geo) = 0 \<and>
   promises (snd (geocode (\<lambda>r. True) False (JObj 1) init_geo)) 0 = Some Pending \<and>
   (\<exists>g'. callback (\<lambda>r k. if r = 7 \<and> k = ''error_message'' then JStr ''quota'' else Undefined)
            0 (JObj 7) (JStr ''OVER_QUERY_LIMIT'')
            (snd (geocode (\<lambda>r. True) False (JObj 1) init_geo)) = Some g' \<and>
         promises g' 0 =
           Some (Rejected \<lparr>err_status = JStr ''OVER_QUERY_LIMIT'', err_message = Some (JStr ''quota'')\<rparr>)) \<and>
   (\<exists>g'. callback (\<lambda>r k. Undefined) 0 (JObj 8) (JStr ''ZERO_RESULTS'')
            (snd (geocode (\<lambda>r. True) False (JObj 1) init_geo)) = Some g' \<and>
         promises g' 0 = Some (Fulfilled (JObj 8)))"
proof -
  let ?g = "snd (geocode (\<lambda>r. True) False (JObj 1) init_geo)"
  have z: "fst (geocode (\<lambda>r. True) False (JObj 1) init_geo) = 0"
    by (simp add: geocode_def init_geo_def Let_def)
  have a: "can_assign (\<lambda>r. True) (JObj 1)"
    by (simp add: can_assign_def)
  from geocode_callback_settles
    [where writable = "\<lambda>r. True" and provider_throws = False and options = "JObj 1"
       and ?g0.0 = init_geo] z a
  have p: "promises ?g 0 = Some Pending"
    by simp
  from geocode_callback_settles
    [where g = ?g and request = 0
       and h = "\<lambda>r k. if r = 7 \<and> k = ''error_message'' then JStr ''quota'' else Undefined"
       and result = "JObj 7" and status = "JStr ''OVER_QUERY_LIMIT''"] p
  have 1: "\<exists>g'. callback (\<lambda>r k. if r = 7 \<and> k = ''error_message'' then JStr ''quota'' else Undefined)
            0 (JObj 7) (JStr ''OVER_QUERY_LIMIT'') ?g = Some g' \<and>
         promises g' 0 =
           Some (Rejected \<lparr>err_status = JStr ''OVER_QUERY_LIMIT'', err_message = Some (JStr ''quota'')\<rparr>)"
    by simp
  from geocode_callback_settles
    [where g = ?g and request = 0 and h = "\<lambda>r k. Undefined"
       and result = "JObj 8" and status = "JStr ''ZERO_RESULTS''"] p
  have 2: "\<exists>g'. callback (\<lambda>r k. Undefined) 0 (JObj 8) (JStr ''ZERO_RESULTS'') ?g = Some g' \<and>
         promises g' 0 = Some (Fulfilled (JObj 8))"
    by simp
  from z p 1 2 show ?thesis by blast
qed

text \<open>
  The edge of truthiness: an \<^verbatim>\<open>error_message\<close> that is the empty string is not copied.
\<close>

lemma callback_outcome_empty_error_message:
  "callback_outcome (\<lambda>r k. if k = ''error_message'' then JStr [] else Undefined)
     (JObj 7) (JStr ''ERROR'') =
   Some (Rejected \<lparr>err_status = JStr ''ERROR'', err_message = None\<rparr>)"
  by (simp add: callback_outcome_def)

subsection \<open>The queue holds the requests whose callback has not run\<close>

text \<open>
  Claim C5. In every reachable state of the queue, the queued requests are exactly the
  requests made whose callback has not run, and every pending request is among them.
  When the callback of a request runs, with any result and status, it returns with that
  request removed from the queue and every other request kept, in order; the queue is
  again exactly the requests whose callback has not run.
\<close>

theorem geocode_queue_holds_uncalled:
  assumes "geo_reachable g"
  shows "(\<forall>r. (r \<in> set (queue g)) =
            (callbacks g r = Some Installed \<or> callbacks g r = Some NoCallback)) \<and>
    (\<forall>r. promises g r = Some Pending \<longrightarrow> r \<in> set (queue g)) \<and>
    (callbacks g request = Some Installed \<longrightarrow>
       (\<exists>g'. callback h request result status g = Some g' \<and>
          queue g' = remove1 request (queue g) \<and>
          request \<notin> set (queue g') \<and>
          (\<forall>r. r \<noteq> request \<longrightarrow> (r \<in> set (queue g')) = (r \<in> set (queue g))) \<and>
          callbacks g' request = Some Called \<and>
          (\<forall>r. (r \<in> set (queue g')) =
               (callbacks g' r = Some Installed \<or> callbacks g' r = Some NoCallback))))"
proof (intro conjI impI)
  from assms have inv: "geo_inv g" by (rule geo_reachable_inv)
  then show q: "\<forall>r. (r \<in> set (queue g)) =
            (callbacks g r = Some Installed \<or> callbacks g r = Some NoCallback)"
    by (simp add: geo_inv_def)
  from inv have "\<forall>r. promises g r = Some Pending \<longrightarrow> callbacks g r = Some Installed"
    by (simp add: geo_inv_def)
  with q show "\<forall>r. promises g r = Some Pending \<longrightarrow> r \<in> set (queue g)"
    by blast
  assume p: "callbacks g request = Some Installed"
  from callback_installed [OF inv p, of h result status]
  obtain g' where c: "callback h request result status g = Some g'"
    and qq: "queue g' = remove1 request (queue g)"
    and cc: "callbacks g' request = Some Called"
    by auto
  from geo_inv_callback [OF inv p c] have inv': "geo_inv g'" .
  from inv have d: "distinct (queue g)" by (simp add: geo_inv_def)
  from d qq have "request \<notin> set (queue g')" by simp
  moreover from d qq have "\<forall>r. r \<noteq> request \<longrightarrow> (r \<in> set (queue g')) = (r \<in> set (queue g))"
    by simp
  moreover from inv' have "\<forall>r. (r \<in> set (queue g')) =
               (callbacks g' r = Some Installed \<or> callbacks g' r = Some NoCallback)"
    by (simp add: geo_inv_def)
  ultimately show "\<exists>g'. callback h request result status g = Some g' \<and>
          queue g' = remove1 request (queue g) \<and>
          request \<notin> set (queue g') \<and>
          (\<forall>r. r \<noteq> request \<longrightarrow> (r \<in> set (queue g')) = (r \<in> set (queue g))) \<and>
          callbacks g' request = Some Called \<and>
          (\<forall>r. (r \<in> set (queue g')) =
               (callbacks g' r = Some Installed \<or> callbacks g' r = Some NoCallback))"
    using c qq cc by blast
qed

theorem geocode_queue_holds_uncalled_witness:
  "geo_reachable (snd (geocode (\<lambda>r. True) False (JObj 2)
      (snd (geocode (\<lambda>r. True) False (JObj 1) init_geo)))) \<and>
   queue (snd (geocode (\<lambda>r. True) False (JObj 2)
      (snd (geocode (\<lambda>r. True) False (JObj 1) init_geo)))) = [0, 1] \<and>
   callbacks (snd (geocode (\<lambda>r. True) False (JObj 2)
      (snd (geocode (\<lambda>r. True) False (JObj 1) init_geo)))) 0 = Some Installed \<and>
   promises (snd (geocode (\<lambda>r. True) False (JObj 2)
      (snd (geocode (\<lambda>r. True) False (JObj 1) init_geo)))) 1 = Some Pending \<and>
   1 \<in> set (queue (snd (geocode (\<lambda>r. True) False (JObj 2)
      (snd (geocode (\<lambda>r. True) False (JObj 1) init_geo))))) \<and>
   (\<exists>g'. callback (\<lambda>r k. Undefined) 0 Null (JStr ''ERROR'')
            (snd (geocode (\<lambda>r. True) False (JObj 2)
               (snd (geocode (\<lambda>r. True) False (JObj 1) init_geo)))) = Some g' \<and>
         queue g' = [1])"
proof -
  let ?g = "snd (geocode (\<lambda>r. True) False (JObj 2)
      (snd (geocode (\<lambda>r. True) False (JObj 1) init_geo)))"
  have r: "geo_reachable ?g"
    by (intro geo_submit geo_init)
  have q: "queue ?g = [0, 1]"
    by (simp add: geocode_def init_geo_def Let_def)
  have c: "callbacks ?g 0 = Some Installed"
    by (simp add: geocode_def init_geo_def Let_def can_assign_def)
  have p: "promises ?g 1 = Some Pending"
    by (simp add: geocode_def init_geo_def Let_def can_assign_def)
  note t = geocode_queue_holds_uncalled [OF r, of 0 "\<lambda>r k. Undefined" Null "JStr ''ERROR''"]
  from t p have m: "1 \<in> set (queue ?g)"
    by blast
  from t c
  obtain g' where "callback (\<lambda>r k. Undefined) 0 Null (JStr ''ERROR'') ?g = Some g'"
    and "queue g' = remove1 0 (queue ?g)"
    by blast
  with q have "\<exists>g'. callback (\<lambda>r k. Undefined) 0 Null (JStr ''ERROR'') ?g = Some g' \<and> queue g' = [1]"
    by simp
  with r q c p m show ?thesis by blast
qed

text \<open>
  What the queue can hold is a settled request: when the executor throws, here on
  \<^verbatim>\<open>geocode(null)\<close>, the promise is rejected before \<^verbatim>\<open>geocode\<close> pushes it, and no
  callback exists to remove it.
\<close>

lemma geocode_failed_executor_stays_queued:
  "queue (snd (geocode writable provider_throws Null init_geo)) = [0] \<and>
   promises (snd (geocode writable provider_throws Null init_geo)) 0 = Some Thrown \<and>
   callbacks (snd (geocode writable provider_throws Null init_geo)) 0 = Some NoCallback"
  by (simp add: geocode_def init_geo_def Let_def can_assign_def)

text \<open>
  The runs above let the provider call each callback once. A second call of the same
  callback finds no index (\<^verbatim>\<open>indexOf\<close> gives -1) and \<^verbatim>\<open>splice(-1, 1)\<close> removes the last
  queued request instead: here request 0 is called back twice and request 1 leaves the
  queue although it is still pending.
\<close>

lemma callback_twice_drops_last:
  "\<exists>g1 g2. callback h 0 Null (JStr ''ERROR'')
       (snd (geocode (\<lambda>r. True) False (JObj 2)
          (snd (geocode (\<lambda>r. True) False (JObj 1) init_geo)))) = Some g1 \<and>
     queue g1 = [1] \<and>
     callback h 0 Null (JStr ''ERROR'') g1 = Some g2 \<and>
     queue g2 = [] \<and> promises g2 1 = Some Pending"
  by (simp add: callback_def callback_outcome_def geocode_def init_geo_def Let_def splice1_def
      settle_def can_assign_def)

end
